theory Spec2Isabelle
  imports Complex_Main
begin

section \<open>The morphing oscillator voice of MorphingOscillator.h\<close>

text \<open>
  The voice of \<^verbatim>\<open>Source/MorphingOscillator.h\<close> is embedded function by function.
  A C++ \<^verbatim>\<open>double\<close> is a \<^typ>\<open>real\<close>: rounding, infinities and NaN have no counterpart
  here, and the one place where the source can produce a non-finite value from finite
  arguments (the division by the sample rate) is a fault of the model. A C++ \<^verbatim>\<open>int\<close>
  (32 bits) is an \<^typ>\<open>int\<close> between \<open>INT_MIN\<close> and \<open>INT_MAX\<close>; an operation whose result
  leaves that range is undefined behaviour in C++ and a fault of the model.
\<close>

subsection \<open>Machine integers and faults\<close>

definition INT_MIN :: int where
  "INT_MIN = - (2 ^ 31)"

definition INT_MAX :: int where
  "INT_MAX = 2 ^ 31 - 1"

datatype fault =
    SignedOverflow          \<comment> \<open>an \<^verbatim>\<open>int\<close> operation leaves the range of \<^verbatim>\<open>int\<close>\<close>
  | CastOutOfRange          \<comment> \<open>\<^verbatim>\<open>static_cast<int>\<close> of a double that no \<^verbatim>\<open>int\<close> holds\<close>
  | BufferIndexOutOfRange   \<comment> \<open>\<^verbatim>\<open>addSample\<close> outside the buffer\<close>
  | NotFinite               \<comment> \<open>a double division by zero\<close>

subsection \<open>Library functions the voice calls\<close>

text \<open>
  \<^verbatim>\<open>std::fmod (x, y)\<close> is \<open>x - n * y\<close> where \<open>n\<close> is \<open>x / y\<close> with its fractional part
  cut off, that is rounded towards zero: the result has the sign of \<open>x\<close>.
\<close>

definition trunc :: "real \<Rightarrow> int" where
  "trunc x = (if 0 \<le> x then \<lfloor>x\<rfloor> else \<lceil>x\<rceil>)"

definition fmod :: "real \<Rightarrow> real \<Rightarrow> real" where
  "fmod x y = x - of_int (trunc (x / y)) * y"

text \<open>\<^verbatim>\<open>std::clamp (v, lo, hi)\<close>: \<^verbatim>\<open>(v < lo) ? lo : (hi < v) ? hi : v\<close>.\<close>

definition clamp :: "int \<Rightarrow> int \<Rightarrow> int \<Rightarrow> int" where
  "clamp v lo hi = (if v < lo then lo else if hi < v then hi else v)"

text \<open>
  \<^verbatim>\<open>MathConstants<double>::pi\<close> is \<^term>\<open>pi\<close>, and \<^verbatim>\<open>MathConstants<double>::twoPi\<close> is:
\<close>

definition twoPi :: real where
  "twoPi = 2 * pi"

text \<open>
  Modelled from the spec: \<^verbatim>\<open>MidiMessage::getMidiNoteInHertz\<close> belongs to the JUCE
  framework and is not among the sources. The specification gives it as the standard
  MIDI-note-to-frequency formula \<open>440 * 2^((noteNumber-69)/12)\<close>, a pure function.
\<close>

definition getMidiNoteInHertz :: "int \<Rightarrow> real" where
  "getMidiNoteInHertz noteNumber = 440 * 2 powr (real_of_int (noteNumber - 69) / 12)"

text \<open>
  \<^verbatim>\<open>approximatelyEqual (a, b)\<close> belongs to the JUCE framework too
  (\<^verbatim>\<open>juce_MathsFunctions.h\<close>) and is not among the sources; the specification is silent
  about it. The framework defines it, for finite arguments and its default tolerances, as
  \<^verbatim>\<open>diff <= absolute || diff <= relative * max (|a|, |b|)\<close> with \<^verbatim>\<open>diff = |a - b|\<close>,
  where the absolute tolerance is \<^verbatim>\<open>std::numeric_limits<double>::min()\<close>, the smallest
  positive normal double \<open>2^-1022\<close>, and the relative tolerance is
  \<^verbatim>\<open>std::numeric_limits<double>::epsilon()\<close>, which is \<open>2^-52\<close>.
\<close>

definition absoluteTolerance :: real where
  "absoluteTolerance = 1 / 2 ^ 1022"

definition relativeTolerance :: real where
  "relativeTolerance = 1 / 2 ^ 52"

definition approximatelyEqual :: "real \<Rightarrow> real \<Rightarrow> bool" where
  "approximatelyEqual a b =
     (let diff = \<bar>a - b\<bar>
      in diff \<le> absoluteTolerance \<or> diff \<le> relativeTolerance * max \<bar>a\<bar> \<bar>b\<bar>)"

text \<open>
  \<^verbatim>\<open>AudioBuffer<float>\<close> is a JUCE class: a number of channels, each an array of samples
  (floats, held here as reals like the doubles). A buffer is the list of its channels.
  \<^verbatim>\<open>addSample (channel, index, value)\<close> adds the value to one sample in place; the
  framework asserts that channel and index lie inside the buffer, and writes outside it
  otherwise.
\<close>

type_synonym AudioBuffer = "real list list"

definition getNumChannels :: "AudioBuffer \<Rightarrow> int" where
  "getNumChannels buf = int (length buf)"

definition addSample :: "AudioBuffer \<Rightarrow> int \<Rightarrow> int \<Rightarrow> real \<Rightarrow> fault + AudioBuffer" where
  "addSample buf destChannel destSample valueToAdd =
     (if 0 \<le> destChannel \<and> destChannel < int (length buf)
         \<and> 0 \<le> destSample \<and> destSample < int (length (buf ! nat destChannel))
      then Inr (buf [nat destChannel :=
                  (buf ! nat destChannel) [nat destSample :=
                     buf ! nat destChannel ! nat destSample + valueToAdd]])
      else Inl BufferIndexOutOfRange)"

subsection \<open>The waveform generators\<close>

definition sineValue :: "real \<Rightarrow> real" where
  "sineValue currentAngle = sin currentAngle"

definition squareValue :: "real \<Rightarrow> real" where
  "squareValue currentAngle = 1 - 2 * (if sin currentAngle < 0 then 1 else 0)"

definition triangleValue :: "real \<Rightarrow> real" where
  "triangleValue currentAngle = (2 / pi) * arcsin (sin currentAngle)"

definition sawValue :: "real \<Rightarrow> real" where
  "sawValue currentAngle = (2 / pi) * (fmod currentAngle twoPi - pi)"

definition getWaveSample :: "int \<Rightarrow> real \<Rightarrow> real" where
  "getWaveSample waveform input =
     (if waveform = 0 then sineValue input
      else if waveform = 1 then squareValue input
      else if waveform = 2 then triangleValue input
      else sawValue input)"

subsection \<open>The voice\<close>

record MorphingWaveformVoice =
  phaseIndex :: real
  phaseIncrement :: real
  level :: real
  wavePosition :: real
  wave_a :: int
  wave_b :: int

text \<open>The member initialisers of the struct.\<close>

definition newVoice :: MorphingWaveformVoice where
  "newVoice = \<lparr> phaseIndex = 0, phaseIncrement = 0, level = 1, wavePosition = 0,
                wave_a = 0, wave_b = 0 \<rparr>"

text \<open>
  \<^verbatim>\<open>startNote\<close>. The sound and the pitch wheel position are unnamed parameters of the
  source. \<open>sampleRate\<close> is what \<^verbatim>\<open>getSampleRate()\<close> returns: a member of the JUCE base
  class \<^verbatim>\<open>SynthesiserVoice\<close>, passed here as an argument. Dividing by a zero sample rate
  gives no real number.
\<close>

definition startNote ::
  "int \<Rightarrow> real \<Rightarrow> int \<Rightarrow> real \<Rightarrow> MorphingWaveformVoice \<Rightarrow> fault + MorphingWaveformVoice" where
  "startNote midiNoteNumber velocity currentPitchWheelPosition sampleRate v =
     (let currentFrequency = getMidiNoteInHertz midiNoteNumber
      in if sampleRate = 0 then Inl NotFinite
         else let cyclesPerSample = currentFrequency / sampleRate
              in Inr (v \<lparr> phaseIndex := 0, phaseIncrement := cyclesPerSample * twoPi \<rparr>))"

definition stopNote :: "real \<Rightarrow> bool \<Rightarrow> MorphingWaveformVoice \<Rightarrow> MorphingWaveformVoice" where
  "stopNote velocity allowTailOff v = v \<lparr> phaseIncrement := 0 \<rparr>"

text \<open>
  \<^verbatim>\<open>updateMorphFunctions\<close>. \<^verbatim>\<open>std::floor\<close> returns a double; the cast to \<^verbatim>\<open>int\<close> is
  defined only when an \<^verbatim>\<open>int\<close> holds the value, and \<^verbatim>\<open>wave_a + 1\<close> is an \<^verbatim>\<open>int\<close>
  addition.
\<close>

definition updateMorphFunctions ::
  "real \<Rightarrow> MorphingWaveformVoice \<Rightarrow> fault + MorphingWaveformVoice" where
  "updateMorphFunctions position v =
     (let positionFloor = \<lfloor>position\<rfloor>
      in if positionFloor < INT_MIN \<or> INT_MAX < positionFloor then Inl CastOutOfRange
         else if positionFloor + 1 > INT_MAX then Inl SignedOverflow
         else Inr (v \<lparr> wave_a := positionFloor,
                        wave_b := clamp (positionFloor + 1) 0 3,
                        wavePosition := position - of_int positionFloor \<rparr>))"

text \<open>
  The inner loop of \<^verbatim>\<open>renderNextBlock\<close>:
  \<^verbatim>\<open>for (auto channel = 0; channel < outputLen; ++channel) outputBuffer.addSample (...)\<close>.
\<close>

function channelLoop ::
  "AudioBuffer \<Rightarrow> int \<Rightarrow> int \<Rightarrow> int \<Rightarrow> real \<Rightarrow> fault + AudioBuffer" where
  "channelLoop outputBuffer channel outputLen startSample levelAdjustedSample =
     (if channel < outputLen
      then (case addSample outputBuffer channel startSample levelAdjustedSample of
              Inl e \<Rightarrow> Inl e
            | Inr outputBuffer' \<Rightarrow>
                channelLoop outputBuffer' (channel + 1) outputLen startSample levelAdjustedSample)
      else Inr outputBuffer)"
  by pat_completeness auto
termination
  by (relation "measure (\<lambda>(b, channel, outputLen, s, x). nat (outputLen - channel))") auto

text \<open>
  The outer loop, \<^verbatim>\<open>while (--numSamples >= 0)\<close>: the decrement comes first and is an
  \<^verbatim>\<open>int\<close> subtraction, and \<^verbatim>\<open>startSample++\<close> ends the body.
\<close>

function sampleLoop ::
  "MorphingWaveformVoice \<Rightarrow> AudioBuffer \<Rightarrow> int \<Rightarrow> int
     \<Rightarrow> fault + (MorphingWaveformVoice \<times> AudioBuffer)" where
  "sampleLoop v outputBuffer startSample numSamples =
     (if numSamples - 1 < INT_MIN then Inl SignedOverflow
      else if numSamples - 1 \<ge> 0 then
        (let wave_a_value = getWaveSample (wave_a v) (phaseIndex v);
             wave_b_value = getWaveSample (wave_b v) (phaseIndex v);
             interpolatedValue = (wave_a_value * (1 - wavePosition v))
                                   + (wave_b_value * wavePosition v);
             levelAdjustedSample = interpolatedValue * level v;
             outputLen = getNumChannels outputBuffer
         in case channelLoop outputBuffer 0 outputLen startSample levelAdjustedSample of
              Inl e \<Rightarrow> Inl e
            | Inr outputBuffer' \<Rightarrow>
                if startSample + 1 > INT_MAX then Inl SignedOverflow
                else sampleLoop (v \<lparr> phaseIndex := phaseIndex v + phaseIncrement v \<rparr>)
                                outputBuffer' (startSample + 1) (numSamples - 1))
      else Inr (v, outputBuffer))"
  by pat_completeness auto
termination
  by (relation "measure (\<lambda>(v, b, s, numSamples). nat numSamples)") auto

definition renderNextBlock ::
  "MorphingWaveformVoice \<Rightarrow> AudioBuffer \<Rightarrow> int \<Rightarrow> int
     \<Rightarrow> fault + (MorphingWaveformVoice \<times> AudioBuffer)" where
  "renderNextBlock v outputBuffer startSample numSamples =
     (if \<not> approximatelyEqual (phaseIncrement v) 0
      then sampleLoop v outputBuffer startSample numSamples
      else Inr (v, outputBuffer))"

subsection \<open>Histories of calls\<close>

text \<open>
  The voice is driven from outside by calls of its member functions. A history is a list
  of such calls, applied to one voice from left to right; a fault ends it.
\<close>

datatype voiceCall =
    StartNote int real int real
  | StopNote real bool
  | UpdateMorphFunctions real
  | RenderNextBlock AudioBuffer int int

fun call :: "voiceCall \<Rightarrow> MorphingWaveformVoice \<Rightarrow> fault + MorphingWaveformVoice" where
  "call (StartNote midiNoteNumber velocity currentPitchWheelPosition sampleRate) v =
     startNote midiNoteNumber velocity currentPitchWheelPosition sampleRate v"
| "call (StopNote velocity allowTailOff) v = Inr (stopNote velocity allowTailOff v)"
| "call (UpdateMorphFunctions position) v = updateMorphFunctions position v"
| "call (RenderNextBlock outputBuffer startSample numSamples) v =
     (case renderNextBlock v outputBuffer startSample numSamples of
        Inl e \<Rightarrow> Inl e
      | Inr (v', outputBuffer') \<Rightarrow> Inr v')"

fun calls :: "voiceCall list \<Rightarrow> MorphingWaveformVoice \<Rightarrow> fault + MorphingWaveformVoice" where
  "calls [] v = Inr v"
| "calls (c # cs) v = (case call c v of Inl e \<Rightarrow> Inl e | Inr v' \<Rightarrow> calls cs v')"

fun isMorph :: "voiceCall \<Rightarrow> bool" where
  "isMorph (UpdateMorphFunctions position) = True"
| "isMorph (StartNote midiNoteNumber velocity currentPitchWheelPosition sampleRate) = False"
| "isMorph (StopNote velocity allowTailOff) = False"
| "isMorph (RenderNextBlock outputBuffer startSample numSamples) = False"

text \<open>
  A zero sample rate is no undefined behaviour: \<^verbatim>\<open>startNote\<close> divides a positive
  frequency by it and stores an infinite \<open>phaseIncrement\<close>, and the voice goes on. No
  real number is that increment, so a history that may pass through such a call runs on
  a voice in one of three conditions:
  \<^item> \<open>Finite v\<close>: every field is the real number \<open>v\<close> holds;
  \<^item> \<open>InfiniteIncrement v\<close>: \<open>phaseIncrement\<close> is an infinity, and \<open>phaseIndex\<close> may be
    an infinity or NaN too (rendering adds the increment to it); these two fields of \<open>v\<close>
    say nothing, the other four are the voice's;
  \<^item> \<open>StoppedAfterInfinite v\<close>: \<open>stopNote\<close> has set \<open>phaseIncrement\<close> to 0 since, as
    \<open>v\<close> shows, while \<open>phaseIndex\<close> may still be an infinity or NaN; that field of \<open>v\<close>
    says nothing.

  \<^verbatim>\<open>approximatelyEqual\<close> compares exactly when an argument is not finite, so an infinite
  increment is not approximately 0 and render enters its loop; what the loop then does
  with its counters and with the positions of the buffer does not depend on the values
  it adds. With an increment of 0 render returns at once, whatever the phase is.
\<close>

datatype voiceState =
    Finite MorphingWaveformVoice
  | InfiniteIncrement MorphingWaveformVoice
  | StoppedAfterInfinite MorphingWaveformVoice

fun fields :: "voiceState \<Rightarrow> MorphingWaveformVoice" where
  "fields (Finite v) = v"
| "fields (InfiniteIncrement v) = v"
| "fields (StoppedAfterInfinite v) = v"

fun withFields :: "voiceState \<Rightarrow> MorphingWaveformVoice \<Rightarrow> voiceState" where
  "withFields (Finite v) v' = Finite v'"
| "withFields (InfiniteIncrement v) v' = InfiniteIncrement v'"
| "withFields (StoppedAfterInfinite v) v' = StoppedAfterInfinite v'"

fun perform :: "voiceCall \<Rightarrow> voiceState \<Rightarrow> fault + voiceState" where
  "perform (StartNote midiNoteNumber velocity currentPitchWheelPosition sampleRate) st =
     (case startNote midiNoteNumber velocity currentPitchWheelPosition sampleRate (fields st) of
        Inl e \<Rightarrow> Inr (InfiniteIncrement (fields st))
      | Inr v' \<Rightarrow> Inr (Finite v'))"
| "perform (StopNote velocity allowTailOff) (Finite v) =
     Inr (Finite (stopNote velocity allowTailOff v))"
| "perform (StopNote velocity allowTailOff) (InfiniteIncrement v) =
     Inr (StoppedAfterInfinite (stopNote velocity allowTailOff v))"
| "perform (StopNote velocity allowTailOff) (StoppedAfterInfinite v) =
     Inr (StoppedAfterInfinite (stopNote velocity allowTailOff v))"
| "perform (UpdateMorphFunctions position) st =
     (case updateMorphFunctions position (fields st) of
        Inl e \<Rightarrow> Inl e
      | Inr v' \<Rightarrow> Inr (withFields st v'))"
| "perform (RenderNextBlock outputBuffer startSample numSamples) (Finite v) =
     (case renderNextBlock v outputBuffer startSample numSamples of
        Inl e \<Rightarrow> Inl e
      | Inr (v', outputBuffer') \<Rightarrow> Inr (Finite v'))"
| "perform (RenderNextBlock outputBuffer startSample numSamples) (InfiniteIncrement v) =
     (case sampleLoop v outputBuffer startSample numSamples of
        Inl e \<Rightarrow> Inl e
      | Inr (v', outputBuffer') \<Rightarrow> Inr (InfiniteIncrement v))"
| "perform (RenderNextBlock outputBuffer startSample numSamples) (StoppedAfterInfinite v) =
     Inr (StoppedAfterInfinite v)"

fun history :: "voiceCall list \<Rightarrow> voiceState \<Rightarrow> fault + voiceState" where
  "history [] st = Inr st"
| "history (c # cs) st = (case perform c st of Inl e \<Rightarrow> Inl e | Inr st' \<Rightarrow> history cs st')"

subsection \<open>What a render call is specified to write\<close>

text \<open>
  The specification's words for one sample: \<open>mixed = a * (1 - morphFraction) + b * morphFraction\<close>
  with \<open>a\<close> and \<open>b\<close> the two waveforms at the phase, then \<open>sample = mixed * level\<close>.
\<close>

definition blendedSample :: "MorphingWaveformVoice \<Rightarrow> real \<Rightarrow> real" where
  "blendedSample v phase =
     (getWaveSample (wave_a v) phase * (1 - wavePosition v)
        + getWaveSample (wave_b v) phase * wavePosition v) * level v"

text \<open>One pass of the channel loop: the same value added at one position of every channel.\<close>

definition addToAllChannels :: "AudioBuffer \<Rightarrow> int \<Rightarrow> real \<Rightarrow> AudioBuffer" where
  "addToAllChannels buf pos x = map (\<lambda>ch. ch [nat pos := ch ! nat pos + x]) buf"

text \<open>
  A whole block: position \<open>start + i\<close> of every channel receives, on top of what it held,
  the sample at phase \<open>phase + i * phaseIncrement\<close>, for \<open>i\<close> from 0 to \<open>n - 1\<close>; every other
  position keeps its content.
\<close>

definition mixedInto :: "MorphingWaveformVoice \<Rightarrow> AudioBuffer \<Rightarrow> int \<Rightarrow> int \<Rightarrow> AudioBuffer" where
  "mixedInto v buf start n =
     map (\<lambda>ch. map (\<lambda>j. ch ! j
                 + (if start \<le> int j \<and> int j < start + n
                    then blendedSample v
                           (phaseIndex v + real_of_int (int j - start) * phaseIncrement v)
                    else 0)) [0..<length ch]) buf"

section \<open>Properties\<close>

declare sampleLoop.simps [simp del] channelLoop.simps [simp del]

subsection \<open>Library facts\<close>

lemma floor_minus_one_real: "\<lfloor>- 1 :: real\<rfloor> = - 1"
  using floor_of_int [of "- 1", where 'a = real] by simp

lemma ceiling_minus_one_real: "\<lceil>- 1 :: real\<rceil> = - 1"
  using ceiling_of_int [of "- 1", where 'a = real] by simp

lemma twoPi_pos: "0 < twoPi"
  by (simp add: twoPi_def)

lemma approximatelyEqual_zero_iff: "approximatelyEqual x 0 \<longleftrightarrow> \<bar>x\<bar> \<le> absoluteTolerance"
  by (auto simp add: approximatelyEqual_def Let_def relativeTolerance_def absoluteTolerance_def)

lemma approximatelyEqual_zero_zero: "approximatelyEqual 0 0"
  by (simp add: approximatelyEqual_zero_iff absoluteTolerance_def)

lemma not_approximatelyEqual_one: "\<not> approximatelyEqual 1 0"
  by (simp add: approximatelyEqual_zero_iff absoluteTolerance_def)

subsection \<open>The waveform generators\<close>

lemma getWaveSample_sine_square_triangle_bounded:
  assumes "kind = 0 \<or> kind = 1 \<or> kind = 2"
  shows "- 1 \<le> getWaveSample kind angle \<and> getWaveSample kind angle \<le> 1"
proof -
  have tri: "- 1 \<le> (2 / pi) * arcsin (sin angle) \<and> (2 / pi) * arcsin (sin angle) \<le> 1"
    using arcsin_bounded [of "sin angle"] pi_gt_zero by (simp add: field_simps)
  show ?thesis
    using assms tri
    by (auto simp add: getWaveSample_def sineValue_def squareValue_def triangleValue_def)
qed

text \<open>
  C9: the dispatch \<open>getWaveSample\<close> is a total function of an integer kind and a real angle:
  it returns \<open>sin angle\<close> for kind 0, the square value for kind 1, the triangle value for
  kind 2, and the sawtooth value for every other integer kind, negative kinds and kinds
  from 4 on included; there is no table that a kind could index outside.
\<close>

theorem getWaveSample_total_dispatch:
  "getWaveSample 0 angle = sin angle
   \<and> getWaveSample 1 angle = squareValue angle
   \<and> getWaveSample 2 angle = triangleValue angle
   \<and> (kind \<notin> {0, 1, 2} \<longrightarrow> getWaveSample kind angle = sawValue angle)"
  by (simp add: getWaveSample_def sineValue_def)

theorem getWaveSample_total_dispatch_witness:
  "((- 1 :: int) \<notin> {0, 1, 2} \<and> getWaveSample (- 1) 0 = sawValue 0)
   \<and> ((7 :: int) \<notin> {0, 1, 2} \<and> getWaveSample 7 0 = sawValue 0)
   \<and> getWaveSample 0 0 = 0"
  using getWaveSample_total_dispatch [of 0 "- 1"] getWaveSample_total_dispatch [of 0 7]
  by simp

text \<open>
  C2: every generator is claimed to stay inside the interval from -1 to 1. The sine, the
  square and the triangle do (lemma \<open>getWaveSample_sine_square_triangle_bounded\<close>). The
  sawtooth does not: \<open>sawValue\<close> scales \<open>fmod angle twoPi - pi\<close>, which starts at \<open>- pi\<close>, by
  \<open>2 / pi\<close>, the factor of the triangle, so that at angle 0 kind 3 yields -2.
\<close>

theorem getWaveSample_saw_at_zero:
  "getWaveSample 3 0 = - 2"
  by (simp add: getWaveSample_def sawValue_def fmod_def trunc_def twoPi_def)

subsection \<open>Periodicity and continuity\<close>

lemma fmod_shift_nonneg:
  assumes "0 \<le> angle"
  shows "fmod (angle + twoPi) twoPi = fmod angle twoPi"
proof -
  have q: "(angle + twoPi) / twoPi = angle / twoPi + 1"
    using twoPi_pos by (simp add: field_simps)
  have "0 \<le> angle / twoPi" using assms twoPi_pos by simp
  then have "trunc ((angle + twoPi) / twoPi) = trunc (angle / twoPi) + 1"
    unfolding q by (simp add: trunc_def)
  then show ?thesis by (simp add: fmod_def algebra_simps)
qed

lemma fmod_shift_below:
  assumes "angle \<le> - twoPi"
  shows "fmod (angle + twoPi) twoPi = fmod angle twoPi"
proof -
  have q: "(angle + twoPi) / twoPi = angle / twoPi + 1"
    using twoPi_pos by (simp add: field_simps)
  have le: "angle / twoPi \<le> - 1" using assms twoPi_pos by (simp add: field_simps)
  have "trunc (angle / twoPi + 1) = trunc (angle / twoPi) + 1"
  proof (cases "angle / twoPi = - 1")
    case True
    then show ?thesis by (simp add: trunc_def ceiling_minus_one_real)
  next
    case False
    with le have "angle / twoPi + 1 < 0" by simp
    with le show ?thesis by (simp add: trunc_def)
  qed
  then show ?thesis unfolding fmod_def q by (simp add: algebra_simps)
qed

lemma isCont_trunc:
  fixes q :: real
  assumes "q \<notin> \<int>"
  shows "isCont (\<lambda>y. real_of_int (trunc y)) q"
proof (cases "0 < q")
  case True
  have ev: "\<forall>\<^sub>F y in nhds q. real_of_int (trunc y) = real_of_int \<lfloor>y\<rfloor>"
    using True by (intro eventually_nhds [THEN iffD2] exI [of _ "{0<..}"]) (auto simp: trunc_def)
  have lim: "isCont (\<lambda>y. real_of_int \<lfloor>y\<rfloor>) q"
    using continuous_floor [OF assms] by (simp add: comp_def)
  show ?thesis by (rule iffD2 [OF isCont_cong [OF ev] lim])
next
  case False
  have "q \<noteq> 0" using assms by auto
  with False have neg: "q < 0" by simp
  have ev: "\<forall>\<^sub>F y in nhds q. real_of_int (trunc y) = real_of_int \<lceil>y\<rceil>"
    using neg by (intro eventually_nhds [THEN iffD2] exI [of _ "{..<0}"]) (auto simp: trunc_def)
  have lim: "isCont (\<lambda>y. real_of_int \<lceil>y\<rceil>) q"
    unfolding isCont_def by (rule tendsto_of_int_ceiling [OF tendsto_ident_at assms])
  show ?thesis by (rule iffD2 [OF isCont_cong [OF ev] lim])
qed

lemma isCont_sawValue:
  assumes "\<forall>k::int. angle \<noteq> 2 * pi * of_int k"
  shows "isCont sawValue angle"
proof -
  have "angle / twoPi \<notin> \<int>"
  proof
    assume "angle / twoPi \<in> \<int>"
    then obtain k :: int where "angle / twoPi = of_int k" by (auto elim: Ints_cases)
    then have "angle = 2 * pi * of_int k" by (simp add: twoPi_def field_simps)
    with assms show False by blast
  qed
  then have "isCont (\<lambda>y. real_of_int (trunc y)) (angle / twoPi)"
    by (rule isCont_trunc)
  moreover have "isCont (\<lambda>a. a / twoPi) angle"
    by (intro continuous_intros) (simp add: twoPi_def)
  ultimately have "isCont (\<lambda>a. real_of_int (trunc (a / twoPi))) angle"
    by (rule isCont_o2 [where g = "\<lambda>y. real_of_int (trunc y)" and f = "\<lambda>a. a / twoPi", rotated])
  then show ?thesis
    unfolding sawValue_def [abs_def] fmod_def by (intro continuous_intros) simp_all
qed

lemma sawValue_before_boundary:
  fixes k :: int
  assumes "1 \<le> k" "2 * pi * of_int (k - 1) < y" "y < 2 * pi * of_int k"
  shows "sawValue y = (2 / pi) * (y - 2 * pi * of_int (k - 1) - pi)"
proof -
  have "0 \<le> 2 * pi * real_of_int (k - 1)"
    using assms(1) by simp
  with assms(2) have "0 < y" by linarith
  then have nonneg: "0 \<le> y / twoPi" using twoPi_pos by simp
  have "of_int (k - 1) < y / twoPi" "y / twoPi < of_int k"
    using assms(2,3) by (simp_all add: twoPi_def field_simps)
  then have "\<lfloor>y / twoPi\<rfloor> = k - 1"
    by (simp add: floor_eq_iff)
  with nonneg have "trunc (y / twoPi) = k - 1"
    by (simp add: trunc_def)
  then show ?thesis
    by (simp add: sawValue_def fmod_def twoPi_def)
qed

lemma sawValue_at_boundary:
  fixes k :: int
  assumes "0 \<le> k"
  shows "sawValue (2 * pi * of_int k) = - 2"
proof -
  have "2 * pi * real_of_int k / twoPi = of_int k" by (simp add: twoPi_def)
  then show ?thesis using assms
    by (simp add: sawValue_def fmod_def trunc_def twoPi_def)
qed

lemma sawValue_jump:
  fixes k :: int
  assumes "1 \<le> k"
  shows "\<not> isCont sawValue (2 * pi * of_int k)"
proof
  let ?x = "2 * pi * real_of_int k"
  let ?g = "\<lambda>y. (2 / pi) * (y - 2 * pi * of_int (k - 1) - pi)"
  assume "isCont sawValue ?x"
  then have "(sawValue \<longlongrightarrow> sawValue ?x) (at_left ?x)"
    unfolding isCont_def by (rule filterlim_mono [OF _ order_refl at_le]) simp
  then have l1: "(sawValue \<longlongrightarrow> - 2) (at_left ?x)"
    using assms by (simp add: sawValue_at_boundary)
  have lt: "2 * pi * real_of_int (k - 1) < ?x" by simp
  have ev: "\<forall>\<^sub>F y in at_left ?x. ?g y = sawValue y"
    using lt by (rule eventually_at_leftI [rotated]) (simp add: sawValue_before_boundary [OF assms])
  have "(?g \<longlongrightarrow> ?g ?x) (at_left ?x)"
    by (intro tendsto_intros)
  then have "(sawValue \<longlongrightarrow> ?g ?x) (at_left ?x)"
    using ev by (rule Lim_transform_eventually)
  with l1 have "?g ?x = - 2"
    by (intro tendsto_unique [OF trivial_limit_at_left_real])
  then show False by (simp add: field_simps)
qed

lemma one_not_period_multiple: "\<forall>k::int. (1::real) \<noteq> 2 * pi * of_int k"
proof
  fix k :: int
  show "(1::real) \<noteq> 2 * pi * of_int k"
  proof (cases "k \<le> 0")
    case True
    then have "2 * pi * real_of_int k \<le> 0"
      by (simp add: mult_nonneg_nonpos)
    then show ?thesis by linarith
  next
    case False
    then have "1 \<le> real_of_int k" by simp
    then have "2 * pi * 1 \<le> 2 * pi * real_of_int k"
      by (intro mult_left_mono) simp_all
    with pi_gt_zero pi_ge_two show ?thesis by linarith
  qed
qed

text \<open>
  C8, as amended: the triangle has period \<open>2 * pi\<close> over all real angles and is continuous
  everywhere. The sawtooth satisfies \<open>sawValue (angle + 2 * pi) = sawValue angle\<close> for
  every angle that is not negative and for every angle at or below \<open>- 2 * pi\<close>, and is
  continuous at every angle that is not an integer multiple of \<open>2 * pi\<close>, with a jump at
  every positive multiple. (\<open>fmod\<close> keeps the sign of the angle, so the shift from a
  negative angle to one that is not negative changes the value.)
\<close>

theorem triangle_saw_periodic_continuous:
  "triangleValue (angle + 2 * pi) = triangleValue angle
   \<and> continuous_on UNIV triangleValue
   \<and> (0 \<le> angle \<or> angle \<le> - (2 * pi) \<longrightarrow> sawValue (angle + 2 * pi) = sawValue angle)
   \<and> ((\<forall>k::int. angle \<noteq> 2 * pi * of_int k) \<longrightarrow> isCont sawValue angle)
   \<and> (1 \<le> m \<longrightarrow> \<not> isCont sawValue (2 * pi * of_int m))"
proof (intro conjI impI)
  show "triangleValue (angle + 2 * pi) = triangleValue angle"
    by (simp add: triangleValue_def)
  show "continuous_on UNIV triangleValue"
    unfolding triangleValue_def by (intro continuous_intros) simp_all
  show "sawValue (angle + 2 * pi) = sawValue angle" if "0 \<le> angle \<or> angle \<le> - (2 * pi)"
    using that fmod_shift_nonneg [of angle] fmod_shift_below [of angle]
    by (auto simp add: sawValue_def twoPi_def)
  show "isCont sawValue angle" if "\<forall>k::int. angle \<noteq> 2 * pi * of_int k"
    using that by (rule isCont_sawValue)
  show "\<not> isCont sawValue (2 * pi * of_int m)" if "1 \<le> m"
    using that by (rule sawValue_jump)
qed

theorem triangle_saw_periodic_continuous_witness:
  "((0::real) \<le> 1 \<or> (1::real) \<le> - (2 * pi))
   \<and> (\<forall>k::int. (1::real) \<noteq> 2 * pi * of_int k)
   \<and> triangleValue (1 + 2 * pi) = triangleValue 1
   \<and> sawValue (1 + 2 * pi) = sawValue 1
   \<and> isCont sawValue 1
   \<and> (1::int) \<le> 1 \<and> \<not> isCont sawValue (2 * pi)"
  using triangle_saw_periodic_continuous [of 1 1] one_not_period_multiple by simp

text \<open>
  The claim as stated, with the sawtooth periodic over all real angles, fails at the
  angle \<open>- pi\<close>: the sawtooth is -4 there and 0 one period later.
\<close>

theorem sawValue_period_counterexample:
  "sawValue (- pi) = - 4 \<and> sawValue (- pi + 2 * pi) = 0
   \<and> sawValue (- pi + 2 * pi) \<noteq> sawValue (- pi)"
proof -
  have c: "\<lceil>- (1 / 2) :: real\<rceil> = 0" by (simp add: ceiling_eq_iff)
  have f: "\<lfloor>1 / 2 :: real\<rfloor> = 0" by simp
  show ?thesis by (simp add: sawValue_def fmod_def trunc_def twoPi_def c f)
qed

subsection \<open>Rendering\<close>

lemma addSample_in_range:
  assumes "c < length buf" "0 \<le> pos" "pos < int (length (buf ! c))"
  shows "addSample buf (int c) pos x = Inr (buf [c := (buf ! c) [nat pos := buf ! c ! nat pos + x]])"
  using assms by (simp add: addSample_def)

lemma channelLoop_from:
  assumes "0 \<le> pos" "\<forall>ch\<in>set buf. pos < int (length ch)" "c \<le> length buf"
  shows "channelLoop buf (int c) (int (length buf)) pos x
           = Inr (take c buf @ map (\<lambda>ch. ch [nat pos := ch ! nat pos + x]) (drop c buf))"
  using assms
proof (induction "length buf - c" arbitrary: buf c)
  case 0
  then show ?case by (subst channelLoop.simps) simp
next
  case (Suc k)
  let ?f = "\<lambda>ch. ch [nat pos := ch ! nat pos + x]"
  let ?buf1 = "buf [c := ?f (buf ! c)]"
  from Suc have c: "c < length buf" by simp
  have in_range: "pos < int (length (buf ! c))"
    using Suc.prems(2) c by simp
  have step: "addSample buf (int c) pos x = Inr ?buf1"
    using addSample_in_range [OF c Suc.prems(1) in_range] .
  have lens: "\<forall>ch\<in>set ?buf1. pos < int (length ch)"
  proof
    fix ch assume "ch \<in> set ?buf1"
    then have "ch \<in> insert (?f (buf ! c)) (set buf)"
      using set_update_subset_insert by fastforce
    then show "pos < int (length ch)"
      using Suc.prems(2) in_range by auto
  qed
  have ih: "channelLoop ?buf1 (int (Suc c)) (int (length ?buf1)) pos x
              = Inr (take (Suc c) ?buf1 @ map ?f (drop (Suc c) ?buf1))"
    using Suc.hyps(2) c by (intro Suc.hyps(1) [OF _ Suc.prems(1) lens]) simp_all
  have t: "take (Suc c) ?buf1 = take c buf @ [?f (buf ! c)]"
    using c by (simp add: take_Suc_conv_app_nth)
  have d: "drop c buf = buf ! c # drop (Suc c) buf"
    using c by (simp add: Cons_nth_drop_Suc)
  have "channelLoop buf (int c) (int (length buf)) pos x
          = channelLoop ?buf1 (int c + 1) (int (length buf)) pos x"
    using c step by (subst channelLoop.simps) simp
  also have "\<dots> = Inr (take (Suc c) ?buf1 @ map ?f (drop (Suc c) ?buf1))"
    using ih by (simp add: add.commute)
  also have "\<dots> = Inr (take c buf @ map ?f (drop c buf))"
    by (simp add: t d)
  finally show ?case .
qed

lemma channelLoop_all:
  assumes "0 \<le> pos" "\<forall>ch\<in>set buf. pos < int (length ch)"
  shows "channelLoop buf 0 (getNumChannels buf) pos x = Inr (addToAllChannels buf pos x)"
  using channelLoop_from [OF assms, of 0 x] by (simp add: getNumChannels_def addToAllChannels_def)

lemma length_mixedInto [simp]: "length (mixedInto v buf start n) = length buf"
  by (simp add: mixedInto_def)

lemma length_mixedInto_nth [simp]:
  "c < length buf \<Longrightarrow> length (mixedInto v buf start n ! c) = length (buf ! c)"
  by (simp add: mixedInto_def)

lemma mixedInto_nth:
  "c < length buf \<Longrightarrow> j < length (buf ! c) \<Longrightarrow>
     mixedInto v buf start n ! c ! j
       = buf ! c ! j + (if start \<le> int j \<and> int j < start + n
                        then blendedSample v (phaseIndex v + real_of_int (int j - start) * phaseIncrement v)
                        else 0)"
  by (simp add: mixedInto_def)

lemma length_addToAllChannels [simp]: "length (addToAllChannels buf pos x) = length buf"
  by (simp add: addToAllChannels_def)

lemma length_addToAllChannels_nth [simp]:
  "c < length buf \<Longrightarrow> length (addToAllChannels buf pos x ! c) = length (buf ! c)"
  by (simp add: addToAllChannels_def)

lemma addToAllChannels_nth:
  "c < length buf \<Longrightarrow> j < length (buf ! c) \<Longrightarrow>
     addToAllChannels buf pos x ! c ! j = buf ! c ! j + (if j = nat pos then x else 0)"
  by (simp add: addToAllChannels_def nth_list_update)

lemma buffer_eqI:
  fixes a b :: AudioBuffer
  assumes "length a = length b"
    and "\<And>c. c < length b \<Longrightarrow> length (a ! c) = length (b ! c)"
    and "\<And>c j. c < length b \<Longrightarrow> j < length (b ! c) \<Longrightarrow> a ! c ! j = b ! c ! j"
  shows "a = b"
  using assms by (metis nth_equalityI)

lemma mixedInto_zero: "mixedInto v buf start 0 = buf"
  by (rule buffer_eqI) (simp_all add: mixedInto_nth)

lemma blendedSample_phase [simp]:
  "blendedSample (v \<lparr> phaseIndex := p \<rparr>) x = blendedSample v x"
  by (simp add: blendedSample_def)

lemma mixedInto_step:
  assumes "0 \<le> start" "0 \<le> n"
  shows "mixedInto (v \<lparr> phaseIndex := phaseIndex v + phaseIncrement v \<rparr>)
           (addToAllChannels buf start (blendedSample v (phaseIndex v))) (start + 1) n
         = mixedInto v buf start (n + 1)"
proof (rule buffer_eqI)
  fix c j assume c: "c < length (mixedInto v buf start (n + 1))"
    and j: "j < length (mixedInto v buf start (n + 1) ! c)"
  then have c': "c < length buf" and j': "j < length (buf ! c)" by simp_all
  have "int j = start \<longleftrightarrow> j = nat start" using assms(1) by auto
  then show "mixedInto (v \<lparr> phaseIndex := phaseIndex v + phaseIncrement v \<rparr>)
           (addToAllChannels buf start (blendedSample v (phaseIndex v))) (start + 1) n ! c ! j
         = mixedInto v buf start (n + 1) ! c ! j"
    using c' j' assms
    by (auto simp add: mixedInto_nth addToAllChannels_nth algebra_simps)
qed simp_all

lemma sampleLoop_run:
  assumes "0 \<le> start" "start + int n \<le> INT_MAX" "\<forall>ch\<in>set buf. start + int n \<le> int (length ch)"
  shows "sampleLoop v buf start (int n)
           = Inr (v \<lparr> phaseIndex := phaseIndex v + real n * phaseIncrement v \<rparr>,
                  mixedInto v buf start (int n))"
  using assms
proof (induction n arbitrary: v buf start)
  case 0
  then show ?case
    by (subst sampleLoop.simps) (simp add: INT_MIN_def mixedInto_zero)
next
  case (Suc n)
  let ?x = "blendedSample v (phaseIndex v)"
  let ?buf1 = "addToAllChannels buf start ?x"
  let ?v1 = "v \<lparr> phaseIndex := phaseIndex v + phaseIncrement v \<rparr>"
  have inner: "channelLoop buf 0 (getNumChannels buf) start ?x = Inr ?buf1"
    using Suc.prems by (intro channelLoop_all) auto
  have lens: "\<forall>ch\<in>set ?buf1. start + 1 + int n \<le> int (length ch)"
    using Suc.prems(3) by (auto simp: addToAllChannels_def)
  have ih: "sampleLoop ?v1 ?buf1 (start + 1) (int n)
              = Inr (?v1 \<lparr> phaseIndex := phaseIndex ?v1 + real n * phaseIncrement ?v1 \<rparr>,
                     mixedInto ?v1 ?buf1 (start + 1) (int n))"
    using Suc.prems by (intro Suc.IH lens) simp_all
  have "sampleLoop v buf start (int (Suc n)) = sampleLoop ?v1 ?buf1 (start + 1) (int n)"
    using Suc.prems(2) inner
    by (subst sampleLoop.simps) (simp add: INT_MIN_def Let_def blendedSample_def)
  also note ih
  finally have run: "sampleLoop v buf start (int (Suc n))
      = Inr (?v1 \<lparr> phaseIndex := phaseIndex ?v1 + real n * phaseIncrement ?v1 \<rparr>,
             mixedInto ?v1 ?buf1 (start + 1) (int n))" .
  have buf_eq: "mixedInto ?v1 ?buf1 (start + 1) (int n) = mixedInto v buf start (int (Suc n))"
    using mixedInto_step [of start "int n" v buf] Suc.prems(1) by (simp add: add.commute)
  have v_eq: "?v1 \<lparr> phaseIndex := phaseIndex ?v1 + real n * phaseIncrement ?v1 \<rparr>
                = v \<lparr> phaseIndex := phaseIndex v + real (Suc n) * phaseIncrement v \<rparr>"
    by (simp add: algebra_simps)
  show ?case unfolding run buf_eq v_eq ..
qed


lemma sampleLoop_voice:
  "sampleLoop v buf s n = Inr (v', buf') \<Longrightarrow>
     v' = v \<lparr> phaseIndex := phaseIndex v + real_of_int (max 0 n) * phaseIncrement v \<rparr>"
proof (induction v buf s n rule: sampleLoop.induct)
  case (1 v outputBuffer startSample numSamples)
  show ?case
  proof (cases "numSamples - 1 \<ge> 0")
    case False
    with "1.prems" show ?thesis
      by (subst (asm) sampleLoop.simps) (auto split: if_splits)
  next
    case True
    let ?v1 = "v \<lparr> phaseIndex := phaseIndex v + phaseIncrement v \<rparr>"
    from "1.prems" True obtain b1 where
      inner: "channelLoop outputBuffer 0 (getNumChannels outputBuffer) startSample
                ((getWaveSample (wave_a v) (phaseIndex v) * (1 - wavePosition v)
                   + getWaveSample (wave_b v) (phaseIndex v) * wavePosition v) * level v) = Inr b1"
      and ovf: "\<not> startSample + 1 > INT_MAX" and nmin: "\<not> numSamples - 1 < INT_MIN"
      and rest: "sampleLoop ?v1 b1 (startSample + 1) (numSamples - 1) = Inr (v', buf')"
      by (subst (asm) sampleLoop.simps) (auto simp: Let_def split: if_splits sum.splits)
    have "v' = ?v1 \<lparr> phaseIndex := phaseIndex ?v1
                     + real_of_int (max 0 (numSamples - 1)) * phaseIncrement ?v1 \<rparr>"
      using "1.IH" [OF nmin True refl refl refl refl refl inner ovf rest] .
    also have "\<dots> = v \<lparr> phaseIndex := phaseIndex v
                     + real_of_int (max 0 numSamples) * phaseIncrement v \<rparr>"
      using True by (simp add: algebra_simps max_def)
    finally show ?thesis .
  qed
qed

lemma sampleLoop_nothing:
  assumes "INT_MIN < n" "n \<le> 0"
  shows "sampleLoop v buf s n = Inr (v, buf)"
  using assms by (subst sampleLoop.simps) simp

lemma mixedInto_append:
  assumes "0 \<le> n" "0 \<le> m"
  shows "mixedInto (v \<lparr> phaseIndex := phaseIndex v + real_of_int n * phaseIncrement v \<rparr>)
           (mixedInto v buf start n) (start + n) m
         = mixedInto v buf start (n + m)"
proof (rule buffer_eqI)
  fix c j assume "c < length (mixedInto v buf start (n + m))"
    and "j < length (mixedInto v buf start (n + m) ! c)"
  then have c: "c < length buf" and j: "j < length (buf ! c)" by simp_all
  show "mixedInto (v \<lparr> phaseIndex := phaseIndex v + real_of_int n * phaseIncrement v \<rparr>)
           (mixedInto v buf start n) (start + n) m ! c ! j
         = mixedInto v buf start (n + m) ! c ! j"
    using c j assms by (auto simp add: mixedInto_nth algebra_simps)
qed simp_all

lemma renderNextBlock_run:
  assumes "\<not> approximatelyEqual (phaseIncrement v) 0"
    and "0 \<le> n" and "0 \<le> startSample" and "startSample + n \<le> INT_MAX"
    and "\<forall>ch\<in>set outputBuffer. startSample + n \<le> int (length ch)"
  shows "renderNextBlock v outputBuffer startSample n
           = Inr (v \<lparr> phaseIndex := phaseIndex v + real_of_int n * phaseIncrement v \<rparr>,
                  mixedInto v outputBuffer startSample n)"
  using assms sampleLoop_run [of startSample "nat n" outputBuffer v]
  by (simp add: renderNextBlock_def)

text \<open>
  C1, as amended: for every render call whose \<open>phaseIncrement\<close> is not approximately
  equal to 0 (the test the source makes, see C10), with \<open>numSamples = n\<close> at least 1 and the
  positions \<open>startSample\<close> to \<open>startSample + n - 1\<close> inside every channel of the buffer, the
  voice processes exactly \<open>n\<close> samples in order: for each \<open>i\<close> from 0 to \<open>n - 1\<close> it takes the
  two waveforms at phase \<open>phase + i * phaseIncrement\<close>, mixes them as
  \<open>a * (1 - wavePosition) + b * wavePosition\<close>, scales by \<open>level\<close>, and adds that value to
  what every channel holds at position \<open>startSample + i\<close>; every other position keeps its
  content. Afterwards the phase is its initial value plus \<open>n * phaseIncrement\<close> and no other
  field has changed, so that a second call for the next \<open>m\<close> positions leaves voice and
  buffer as one call for \<open>n + m\<close> samples would.
\<close>

theorem renderNextBlock_mixes_block:
  assumes "\<not> approximatelyEqual (phaseIncrement v) 0"
    and "1 \<le> n" and "0 \<le> startSample" and "startSample + n \<le> INT_MAX"
    and "\<forall>ch\<in>set outputBuffer. startSample + n \<le> int (length ch)"
  shows "renderNextBlock v outputBuffer startSample n
           = Inr (v \<lparr> phaseIndex := phaseIndex v + real_of_int n * phaseIncrement v \<rparr>,
                  mixedInto v outputBuffer startSample n)
         \<and> length (mixedInto v outputBuffer startSample n) = length outputBuffer
         \<and> (\<forall>c<length outputBuffer.
               length (mixedInto v outputBuffer startSample n ! c) = length (outputBuffer ! c)
               \<and> (\<forall>j<length (outputBuffer ! c).
                     mixedInto v outputBuffer startSample n ! c ! j
                       = outputBuffer ! c ! j
                         + (if startSample \<le> int j \<and> int j < startSample + n
                            then (getWaveSample (wave_a v)
                                     (phaseIndex v + real_of_int (int j - startSample) * phaseIncrement v)
                                     * (1 - wavePosition v)
                                   + getWaveSample (wave_b v)
                                       (phaseIndex v + real_of_int (int j - startSample) * phaseIncrement v)
                                       * wavePosition v) * level v
                            else 0)))
         \<and> (1 \<le> m \<and> startSample + n + m \<le> INT_MAX
              \<and> (\<forall>ch\<in>set outputBuffer. startSample + n + m \<le> int (length ch))
             \<longrightarrow> renderNextBlock
                   (v \<lparr> phaseIndex := phaseIndex v + real_of_int n * phaseIncrement v \<rparr>)
                   (mixedInto v outputBuffer startSample n) (startSample + n) m
                 = renderNextBlock v outputBuffer startSample (n + m))"
proof (intro conjI allI impI)
  show "renderNextBlock v outputBuffer startSample n
           = Inr (v \<lparr> phaseIndex := phaseIndex v + real_of_int n * phaseIncrement v \<rparr>,
                  mixedInto v outputBuffer startSample n)"
    using assms by (intro renderNextBlock_run) simp_all
next
  fix c j assume "c < length outputBuffer" "j < length (outputBuffer ! c)"
  then show "mixedInto v outputBuffer startSample n ! c ! j
                       = outputBuffer ! c ! j
                         + (if startSample \<le> int j \<and> int j < startSample + n
                            then (getWaveSample (wave_a v)
                                     (phaseIndex v + real_of_int (int j - startSample) * phaseIncrement v)
                                     * (1 - wavePosition v)
                                   + getWaveSample (wave_b v)
                                       (phaseIndex v + real_of_int (int j - startSample) * phaseIncrement v)
                                       * wavePosition v) * level v
                            else 0)"
    by (simp add: mixedInto_nth blendedSample_def)
next
  let ?v1 = "v \<lparr> phaseIndex := phaseIndex v + real_of_int n * phaseIncrement v \<rparr>"
  let ?b1 = "mixedInto v outputBuffer startSample n"
  assume m: "1 \<le> m \<and> startSample + n + m \<le> INT_MAX
              \<and> (\<forall>ch\<in>set outputBuffer. startSample + n + m \<le> int (length ch))"
  have lens: "\<forall>ch\<in>set ?b1. startSample + n + m \<le> int (length ch)"
    using m by (auto simp: mixedInto_def)
  have "renderNextBlock ?v1 ?b1 (startSample + n) m
          = Inr (?v1 \<lparr> phaseIndex := phaseIndex ?v1 + real_of_int m * phaseIncrement ?v1 \<rparr>,
                 mixedInto ?v1 ?b1 (startSample + n) m)"
    using assms m lens by (intro renderNextBlock_run) simp_all
  also have "\<dots> = Inr (v \<lparr> phaseIndex := phaseIndex v + real_of_int (n + m) * phaseIncrement v \<rparr>,
                 mixedInto v outputBuffer startSample (n + m))"
  proof -
    have "mixedInto ?v1 ?b1 (startSample + n) m = mixedInto v outputBuffer startSample (n + m)"
      using assms(2) m by (intro mixedInto_append) simp_all
    moreover have "?v1 \<lparr> phaseIndex := phaseIndex ?v1 + real_of_int m * phaseIncrement ?v1 \<rparr>
                     = v \<lparr> phaseIndex := phaseIndex v + real_of_int (n + m) * phaseIncrement v \<rparr>"
      by (simp add: algebra_simps)
    ultimately show ?thesis by simp
  qed
  also have "\<dots> = renderNextBlock v outputBuffer startSample (n + m)"
    using assms m by (intro renderNextBlock_run [symmetric]) (simp_all add: add.assoc)
  finally show "renderNextBlock ?v1 ?b1 (startSample + n) m
                  = renderNextBlock v outputBuffer startSample (n + m)" .
qed simp_all

theorem renderNextBlock_mixes_block_witness:
  "\<not> approximatelyEqual (phaseIncrement (newVoice \<lparr> phaseIndex := pi / 2, phaseIncrement := pi \<rparr>)) 0
   \<and> (1::int) \<le> 2 \<and> (0::int) \<le> 1 \<and> 1 + 2 \<le> INT_MAX
   \<and> (1::int) + 2 \<le> int (length [5, 5, 5, 5 :: real])
   \<and> renderNextBlock (newVoice \<lparr> phaseIndex := pi / 2, phaseIncrement := pi \<rparr>) [[5, 5, 5, 5]] 1 2
       = Inr (newVoice \<lparr> phaseIndex := pi / 2 + 2 * pi, phaseIncrement := pi \<rparr>,
              mixedInto (newVoice \<lparr> phaseIndex := pi / 2, phaseIncrement := pi \<rparr>) [[5, 5, 5, 5]] 1 2)
   \<and> mixedInto (newVoice \<lparr> phaseIndex := pi / 2, phaseIncrement := pi \<rparr>) [[5, 5, 5, 5]] 1 2 ! 0 ! 1 = 6"
proof -
  have a: "\<not> approximatelyEqual pi 0"
    using pi_ge_two by (simp add: approximatelyEqual_zero_iff absoluteTolerance_def)
  show ?thesis
    using renderNextBlock_mixes_block
            [of "newVoice \<lparr> phaseIndex := pi / 2, phaseIncrement := pi \<rparr>" 2 1 "[[5, 5, 5, 5]]" 1]
          a
    by (simp add: INT_MAX_def newVoice_def getWaveSample_def sineValue_def)
qed

text \<open>
  The claim as stated, for every \<open>phaseIncrement\<close> other than 0, fails at the increment
  \<open>2^-1023\<close>: it is not 0, the voice stands at the phase \<open>pi / 2\<close> where the sine is 1, and
  the call for one sample changes neither the buffer nor the phase.
\<close>

theorem renderNextBlock_tiny_increment_counterexample:
  "phaseIncrement (newVoice \<lparr> phaseIndex := pi / 2, phaseIncrement := 1 / 2 ^ 1023 \<rparr>) \<noteq> 0
   \<and> renderNextBlock (newVoice \<lparr> phaseIndex := pi / 2, phaseIncrement := 1 / 2 ^ 1023 \<rparr>) [[0]] 0 1
       = Inr (newVoice \<lparr> phaseIndex := pi / 2, phaseIncrement := 1 / 2 ^ 1023 \<rparr>, [[0]])"
  by (simp add: renderNextBlock_def approximatelyEqual_zero_iff absoluteTolerance_def newVoice_def)

lemma silent_renders:
  assumes "phaseIncrement w = 0"
  shows "calls (map (\<lambda>(b, s, n). RenderNextBlock b s n) blocks) w = Inr w"
proof (induction blocks)
  case Nil
  show ?case by simp
next
  case (Cons x blocks)
  obtain b s n where x: "x = (b, s, n)" by (cases x)
  have "renderNextBlock w b s n = Inr (w, b)"
    using assms by (simp add: renderNextBlock_def approximatelyEqual_zero_zero)
  with Cons.IH x show ?case by simp
qed

text \<open>
  C6: \<open>stopNote\<close> sets \<open>phaseIncrement\<close> to exactly 0, and a render call on the stopped
  voice, whatever the buffer, \<open>startSample\<close> and \<open>numSamples\<close>, returns the buffer and the
  voice as they were: the sample loop is not entered, so not even a position outside the
  buffer or a sample count of \<open>INT_MIN\<close> has an effect. The voice that comes back is the
  stopped voice itself, so the same holds for each render call that follows: any
  sequence of render calls leaves the stopped voice as it is.
\<close>

theorem stopNote_silences_render:
  "phaseIncrement (stopNote velocity allowTailOff v) = 0
   \<and> renderNextBlock (stopNote velocity allowTailOff v) outputBuffer startSample numSamples
       = Inr (stopNote velocity allowTailOff v, outputBuffer)
   \<and> calls (map (\<lambda>(b, s, n). RenderNextBlock b s n) blocks) (stopNote velocity allowTailOff v)
       = Inr (stopNote velocity allowTailOff v)"
proof (intro conjI)
  show zero: "phaseIncrement (stopNote velocity allowTailOff v) = 0"
    by (simp add: stopNote_def)
  then show "renderNextBlock (stopNote velocity allowTailOff v) outputBuffer startSample numSamples
       = Inr (stopNote velocity allowTailOff v, outputBuffer)"
    by (simp add: renderNextBlock_def approximatelyEqual_zero_zero)
  from zero show "calls (map (\<lambda>(b, s, n). RenderNextBlock b s n) blocks)
       (stopNote velocity allowTailOff v) = Inr (stopNote velocity allowTailOff v)"
    by (rule silent_renders)
qed

theorem stopNote_silences_render_witness:
  "phaseIncrement (stopNote 0 False (newVoice \<lparr> phaseIndex := 1, phaseIncrement := 1 \<rparr>)) = 0
   \<and> renderNextBlock (stopNote 0 False (newVoice \<lparr> phaseIndex := 1, phaseIncrement := 1 \<rparr>))
         [[1, 2], [3, 4]] 9 (- (2 ^ 31))
        = Inr (newVoice \<lparr> phaseIndex := 1, phaseIncrement := 0 \<rparr>, [[1, 2], [3, 4]])
   \<and> calls [RenderNextBlock [[1, 2]] 0 2, RenderNextBlock [[1, 2]] 2 2]
         (stopNote 0 False (newVoice \<lparr> phaseIndex := 1, phaseIncrement := 1 \<rparr>))
        = Inr (newVoice \<lparr> phaseIndex := 1, phaseIncrement := 0 \<rparr>)"
  using stopNote_silences_render
          [of 0 False "newVoice \<lparr> phaseIndex := 1, phaseIncrement := 1 \<rparr>"
              "[[1, 2], [3, 4]]" 9 "- (2 ^ 31)" "[([[1, 2]], 0, 2), ([[1, 2]], 2, 2)]"]
  by (simp add: stopNote_def)

text \<open>
  C7, as amended: for every voice and every \<open>numSamples\<close> with
  \<open>INT_MIN < numSamples \<le> 0\<close>, render changes neither the buffer nor any field of the voice
  and raises no fault, whether \<open>phaseIncrement\<close> is zero or not.
\<close>

theorem renderNextBlock_nothing:
  assumes "INT_MIN < numSamples" and "numSamples \<le> 0"
  shows "renderNextBlock v outputBuffer startSample numSamples = Inr (v, outputBuffer)"
  using assms by (simp add: renderNextBlock_def sampleLoop_nothing)

theorem renderNextBlock_nothing_witness:
  "INT_MIN < 0 \<and> (0::int) \<le> 0 \<and> INT_MIN < - 5 \<and> (- 5 :: int) \<le> 0
   \<and> renderNextBlock (newVoice \<lparr> phaseIncrement := 1 \<rparr>) [[1, 2]] 7 0
        = Inr (newVoice \<lparr> phaseIncrement := 1 \<rparr>, [[1, 2]])
   \<and> renderNextBlock (newVoice \<lparr> phaseIncrement := 1 \<rparr>) [[1, 2]] 7 (- 5)
        = Inr (newVoice \<lparr> phaseIncrement := 1 \<rparr>, [[1, 2]])"
  using renderNextBlock_nothing [of 0 "newVoice \<lparr> phaseIncrement := 1 \<rparr>" "[[1, 2]]" 7]
        renderNextBlock_nothing [of "- 5" "newVoice \<lparr> phaseIncrement := 1 \<rparr>" "[[1, 2]]" 7]
  by (simp add: INT_MIN_def)

text \<open>
  The claim as stated, for every \<open>numSamples\<close> that is not positive, fails at \<open>INT_MIN\<close>
  on a sounding voice: the loop condition \<^verbatim>\<open>--numSamples >= 0\<close> decrements first, and
  \<open>INT_MIN - 1\<close> is no \<^verbatim>\<open>int\<close>.
\<close>

theorem renderNextBlock_int_min_counterexample:
  "renderNextBlock (newVoice \<lparr> phaseIncrement := 1 \<rparr>) [[1, 2]] 0 (- (2 ^ 31)) = Inl SignedOverflow"
  by (subst renderNextBlock_def, subst sampleLoop.simps)
     (simp add: INT_MIN_def not_approximatelyEqual_one)

text \<open>
  C10, as amended: the silence test of render compares \<open>phaseIncrement\<close> with 0
  approximately, not exactly; the increment is approximately equal to 0 exactly when its
  magnitude is at most \<open>2^-1022\<close>. Render produces output if and only if \<open>phaseIncrement\<close>
  is not approximately equal to 0 and \<open>numSamples\<close> is at least 1. When the increment is
  approximately 0, or when \<open>numSamples\<close> is not positive (and above \<open>INT_MIN\<close>), the call
  returns voice and buffer as they were. When the increment is not approximately 0 and
  the call asks for \<open>n\<close> positions, at least one, that lie inside the buffer, the call
  adds the blended samples to these positions of every channel, the first of them the
  sample at the voice's phase, added at \<open>startSample\<close>, and moves the phase by
  \<open>n * phaseIncrement\<close>, which differs from where it was; a call for at least one sample
  never returns voice and buffer as they were. So there are increments other than 0 for
  which every render call leaves the buffer and the phase unchanged although \<open>stopNote\<close>
  was never called.
\<close>

theorem renderNextBlock_approximate_gate:
  "(approximatelyEqual (phaseIncrement v) 0 \<longleftrightarrow> \<bar>phaseIncrement v\<bar> \<le> 1 / 2 ^ 1022)
   \<and> (approximatelyEqual (phaseIncrement v) 0 \<longrightarrow>
        renderNextBlock v outputBuffer startSample numSamples = Inr (v, outputBuffer))
   \<and> (\<not> approximatelyEqual (phaseIncrement v) 0 \<and> INT_MIN < numSamples \<and> numSamples \<le> 0 \<longrightarrow>
        renderNextBlock v outputBuffer startSample numSamples = Inr (v, outputBuffer))
   \<and> (\<not> approximatelyEqual (phaseIncrement v) 0 \<and> 1 \<le> numSamples \<and> 0 \<le> startSample
        \<and> startSample + numSamples \<le> INT_MAX
        \<and> (\<forall>ch\<in>set outputBuffer. startSample + numSamples \<le> int (length ch)) \<longrightarrow>
        renderNextBlock v outputBuffer startSample numSamples
          = Inr (v \<lparr> phaseIndex := phaseIndex v + real_of_int numSamples * phaseIncrement v \<rparr>,
                 mixedInto v outputBuffer startSample numSamples)
        \<and> phaseIndex v + real_of_int numSamples * phaseIncrement v \<noteq> phaseIndex v
        \<and> (\<forall>c<length outputBuffer.
              mixedInto v outputBuffer startSample numSamples ! c ! nat startSample
                = outputBuffer ! c ! nat startSample
                  + (getWaveSample (wave_a v) (phaseIndex v) * (1 - wavePosition v)
                       + getWaveSample (wave_b v) (phaseIndex v) * wavePosition v) * level v))
   \<and> (\<not> approximatelyEqual (phaseIncrement v) 0 \<and> 1 \<le> numSamples \<longrightarrow>
        renderNextBlock v outputBuffer startSample numSamples \<noteq> Inr (v, outputBuffer))
   \<and> (\<exists>inc. inc \<noteq> 0
         \<and> (\<forall>w buf start n.
               renderNextBlock (w \<lparr> phaseIncrement := inc \<rparr>) buf start n
                 = Inr (w \<lparr> phaseIncrement := inc \<rparr>, buf)))"
proof (intro conjI impI allI)
  show "approximatelyEqual (phaseIncrement v) 0 \<longleftrightarrow> \<bar>phaseIncrement v\<bar> \<le> 1 / 2 ^ 1022"
    by (simp add: approximatelyEqual_zero_iff absoluteTolerance_def)
next
  assume "approximatelyEqual (phaseIncrement v) 0"
  then show "renderNextBlock v outputBuffer startSample numSamples = Inr (v, outputBuffer)"
    by (simp add: renderNextBlock_def)
next
  assume "\<not> approximatelyEqual (phaseIncrement v) 0 \<and> INT_MIN < numSamples \<and> numSamples \<le> 0"
  then show "renderNextBlock v outputBuffer startSample numSamples = Inr (v, outputBuffer)"
    by (simp add: renderNextBlock_def sampleLoop_nothing)
next
  assume h: "\<not> approximatelyEqual (phaseIncrement v) 0 \<and> 1 \<le> numSamples \<and> 0 \<le> startSample
        \<and> startSample + numSamples \<le> INT_MAX
        \<and> (\<forall>ch\<in>set outputBuffer. startSample + numSamples \<le> int (length ch))"
  then show "renderNextBlock v outputBuffer startSample numSamples
          = Inr (v \<lparr> phaseIndex := phaseIndex v + real_of_int numSamples * phaseIncrement v \<rparr>,
                 mixedInto v outputBuffer startSample numSamples)"
    by (intro renderNextBlock_run) simp_all
  from h have "phaseIncrement v \<noteq> 0"
    using approximatelyEqual_zero_zero by auto
  with h show "phaseIndex v + real_of_int numSamples * phaseIncrement v \<noteq> phaseIndex v"
    by simp
  fix c assume c: "c < length outputBuffer"
  with h have "startSample + numSamples \<le> int (length (outputBuffer ! c))" by simp
  with h have "nat startSample < length (outputBuffer ! c)" by linarith
  with c h show "mixedInto v outputBuffer startSample numSamples ! c ! nat startSample
                = outputBuffer ! c ! nat startSample
                  + (getWaveSample (wave_a v) (phaseIndex v) * (1 - wavePosition v)
                       + getWaveSample (wave_b v) (phaseIndex v) * wavePosition v) * level v"
    by (simp add: mixedInto_nth blendedSample_def)
next
  assume h: "\<not> approximatelyEqual (phaseIncrement v) 0 \<and> 1 \<le> numSamples"
  show "renderNextBlock v outputBuffer startSample numSamples \<noteq> Inr (v, outputBuffer)"
  proof
    assume "renderNextBlock v outputBuffer startSample numSamples = Inr (v, outputBuffer)"
    with h have "sampleLoop v outputBuffer startSample numSamples = Inr (v, outputBuffer)"
      by (simp add: renderNextBlock_def)
    then have "v = v \<lparr> phaseIndex := phaseIndex v
                    + real_of_int (max 0 numSamples) * phaseIncrement v \<rparr>"
      by (rule sampleLoop_voice)
    then have "phaseIndex v = phaseIndex v + real_of_int (max 0 numSamples) * phaseIncrement v"
      by (metis MorphingWaveformVoice.select_convs(1) MorphingWaveformVoice.surjective
            MorphingWaveformVoice.update_convs(1))
    with h have "phaseIncrement v = 0" by (simp add: max_def)
    with h show False by (simp add: approximatelyEqual_zero_zero)
  qed
next
  have "approximatelyEqual (1 / 2 ^ 1023) 0"
    by (simp add: approximatelyEqual_zero_iff absoluteTolerance_def)
  then have "\<forall>w buf start n.
               renderNextBlock (w \<lparr> phaseIncrement := 1 / 2 ^ 1023 \<rparr>) buf start n
                 = Inr (w \<lparr> phaseIncrement := 1 / 2 ^ 1023 \<rparr>, buf)"
    by (simp add: renderNextBlock_def)
  moreover have "(1 / 2 ^ 1023 :: real) \<noteq> 0" by simp
  ultimately show "\<exists>inc. inc \<noteq> 0
         \<and> (\<forall>w buf start n.
               renderNextBlock (w \<lparr> phaseIncrement := inc \<rparr>) buf start n
                 = Inr (w \<lparr> phaseIncrement := inc \<rparr>, buf))"
    by blast
qed

theorem renderNextBlock_approximate_gate_witness:
  "\<not> approximatelyEqual (phaseIncrement (newVoice \<lparr> phaseIndex := pi / 2, phaseIncrement := 1 \<rparr>)) 0
   \<and> (1::int) \<le> 1 \<and> (0::int) \<le> 0 \<and> (0::int) + 1 \<le> INT_MAX
   \<and> (0::int) + 1 \<le> int (length [0 :: real])
   \<and> renderNextBlock (newVoice \<lparr> phaseIndex := pi / 2, phaseIncrement := 1 \<rparr>) [[0], [10]] 0 1
        = Inr (newVoice \<lparr> phaseIndex := pi / 2 + 1, phaseIncrement := 1 \<rparr>, [[1], [11]])
   \<and> approximatelyEqual
        (phaseIncrement (newVoice \<lparr> phaseIndex := pi / 2, phaseIncrement := 1 / 2 ^ 1022 \<rparr>)) 0
   \<and> renderNextBlock (newVoice \<lparr> phaseIndex := pi / 2, phaseIncrement := 1 / 2 ^ 1022 \<rparr>)
        [[0], [10]] 0 1
        = Inr (newVoice \<lparr> phaseIndex := pi / 2, phaseIncrement := 1 / 2 ^ 1022 \<rparr>, [[0], [10]])"
proof -
  have a: "approximatelyEqual (1 / 2 ^ 1022) 0"
    by (simp add: approximatelyEqual_zero_iff absoluteTolerance_def)
  have m: "mixedInto (newVoice \<lparr> phaseIndex := pi / 2, phaseIncrement := 1 \<rparr>) [[0], [10]] 0 1
             = [[1], [11]]"
    by (simp add: mixedInto_def blendedSample_def newVoice_def getWaveSample_def sineValue_def)
  show ?thesis
    using renderNextBlock_approximate_gate
            [of "newVoice \<lparr> phaseIndex := pi / 2, phaseIncrement := 1 \<rparr>" "[[0], [10]]" 0 1]
          renderNextBlock_approximate_gate
            [of "newVoice \<lparr> phaseIndex := pi / 2, phaseIncrement := 1 / 2 ^ 1022 \<rparr>" "[[0], [10]]" 0 1]
          a m not_approximatelyEqual_one
    by (simp add: INT_MAX_def)
qed

text \<open>
  The claim as stated, with output produced whenever \<open>phaseIncrement\<close> is not
  approximately equal to 0, fails for a call that asks for no sample: the increment 1 is
  not approximately 0, the voice stands at the phase \<open>pi / 2\<close> where the sine is 1, and
  render with \<open>numSamples = 0\<close> leaves the buffer and the voice as they were.
\<close>

theorem renderNextBlock_zero_samples_counterexample:
  "\<not> approximatelyEqual (phaseIncrement (newVoice \<lparr> phaseIndex := pi / 2, phaseIncrement := 1 \<rparr>)) 0
   \<and> renderNextBlock (newVoice \<lparr> phaseIndex := pi / 2, phaseIncrement := 1 \<rparr>) [[0]] 0 0
        = Inr (newVoice \<lparr> phaseIndex := pi / 2, phaseIncrement := 1 \<rparr>, [[0]])"
  by (simp add: renderNextBlock_def sampleLoop_nothing INT_MIN_def not_approximatelyEqual_one)

subsection \<open>Starting a note\<close>

text \<open>
  C5: for every note number \<open>n\<close> and every sample rate above 0, \<open>startNote\<close> sets the
  phase to exactly 0 and \<open>phaseIncrement\<close> to \<open>2 * pi * (440 * 2^((n - 69) / 12)) / sampleRate\<close>,
  whatever the velocity and the pitch wheel position; after \<open>startNote\<close> of note 69 at
  44100 Hz the increment is \<open>2 * pi * 440 / 44100\<close>.
\<close>

theorem startNote_phase_increment:
  "(0 < sampleRate \<longrightarrow>
      startNote n velocity wheel sampleRate v
        = Inr (v \<lparr> phaseIndex := 0,
                    phaseIncrement := 2 * pi * (440 * 2 powr ((real_of_int n - 69) / 12)) / sampleRate \<rparr>)
      \<and> startNote n velocity' wheel' sampleRate v = startNote n velocity wheel sampleRate v)
   \<and> startNote 69 velocity wheel 44100 v
        = Inr (v \<lparr> phaseIndex := 0, phaseIncrement := 2 * pi * 440 / 44100 \<rparr>)"
  by (simp add: startNote_def getMidiNoteInHertz_def twoPi_def Let_def)

theorem startNote_phase_increment_witness:
  "(0::real) < 48000
   \<and> startNote 81 1 0 48000 newVoice
        = Inr (newVoice \<lparr> phaseIndex := 0, phaseIncrement := 2 * pi * 880 / 48000 \<rparr>)"
  using startNote_phase_increment [of 48000 81 1 0 newVoice]
  by simp

subsection \<open>The morph position\<close>

lemma updateMorphFunctions_in_range:
  assumes "- (2 ^ 31) \<le> position" "position < 2 ^ 31 - 1"
  shows "updateMorphFunctions position v
           = Inr (v \<lparr> wave_a := \<lfloor>position\<rfloor>, wave_b := clamp (\<lfloor>position\<rfloor> + 1) 0 3,
                       wavePosition := position - of_int \<lfloor>position\<rfloor> \<rparr>)"
proof -
  have "- (2 ^ 31) \<le> \<lfloor>position\<rfloor>" using assms(1) by (simp add: le_floor_iff)
  moreover have "\<lfloor>position\<rfloor> < 2 ^ 31 - 1" using assms(2) by (simp add: floor_less_iff)
  ultimately show ?thesis
    by (simp add: updateMorphFunctions_def Let_def INT_MIN_def INT_MAX_def)
qed

lemma updateMorphFunctions_result:
  assumes "updateMorphFunctions position v = Inr v'"
  shows "v' = v \<lparr> wave_a := \<lfloor>position\<rfloor>, wave_b := clamp (\<lfloor>position\<rfloor> + 1) 0 3,
                   wavePosition := position - of_int \<lfloor>position\<rfloor> \<rparr>"
  using assms by (auto simp add: updateMorphFunctions_def Let_def split: if_splits)

text \<open>
  C3, as amended: for every position \<open>p\<close> with \<open>- 2^31 \<le> p < 2^31 - 1\<close>,
  \<open>updateMorphFunctions p\<close> leaves \<open>wave_a = floor p\<close> (the floor is not clamped),
  \<open>wave_b = clamp (wave_a + 1, 0, 3)\<close> and \<open>wavePosition = p - floor p\<close>. So position 0
  gives index 0 and fraction 0, position 3 gives \<open>wave_a = 3\<close>, \<open>wave_b = 3\<close> and fraction 0,
  and position 1.5 gives \<open>wave_a = 1\<close>, \<open>wave_b = 2\<close> and fraction 0.5.
\<close>

theorem updateMorphFunctions_floor_and_fraction:
  "(- (2 ^ 31) \<le> position \<and> position < 2 ^ 31 - 1 \<longrightarrow>
      updateMorphFunctions position v
        = Inr (v \<lparr> wave_a := \<lfloor>position\<rfloor>, wave_b := clamp (\<lfloor>position\<rfloor> + 1) 0 3,
                    wavePosition := position - of_int \<lfloor>position\<rfloor> \<rparr>))
   \<and> updateMorphFunctions 0 v = Inr (v \<lparr> wave_a := 0, wave_b := 1, wavePosition := 0 \<rparr>)
   \<and> updateMorphFunctions 3 v = Inr (v \<lparr> wave_a := 3, wave_b := 3, wavePosition := 0 \<rparr>)
   \<and> updateMorphFunctions 1.5 v = Inr (v \<lparr> wave_a := 1, wave_b := 2, wavePosition := 0.5 \<rparr>)"
proof (intro conjI impI)
  show "updateMorphFunctions position v
        = Inr (v \<lparr> wave_a := \<lfloor>position\<rfloor>, wave_b := clamp (\<lfloor>position\<rfloor> + 1) 0 3,
                    wavePosition := position - of_int \<lfloor>position\<rfloor> \<rparr>)"
    if "- (2 ^ 31) \<le> position \<and> position < 2 ^ 31 - 1"
    using that by (intro updateMorphFunctions_in_range) simp_all
  show "updateMorphFunctions 0 v = Inr (v \<lparr> wave_a := 0, wave_b := 1, wavePosition := 0 \<rparr>)"
    by (simp add: updateMorphFunctions_def Let_def INT_MIN_def INT_MAX_def clamp_def)
  show "updateMorphFunctions 3 v = Inr (v \<lparr> wave_a := 3, wave_b := 3, wavePosition := 0 \<rparr>)"
    by (simp add: updateMorphFunctions_def Let_def INT_MIN_def INT_MAX_def clamp_def)
  have "\<lfloor>1.5 :: real\<rfloor> = 1" by (simp add: floor_eq_iff)
  then show "updateMorphFunctions 1.5 v
               = Inr (v \<lparr> wave_a := 1, wave_b := 2, wavePosition := 0.5 \<rparr>)"
    by (simp add: updateMorphFunctions_def Let_def INT_MIN_def INT_MAX_def clamp_def)
qed

theorem updateMorphFunctions_floor_and_fraction_witness:
  "- (2 ^ 31) \<le> (- 2.25 :: real) \<and> (- 2.25 :: real) < 2 ^ 31 - 1
   \<and> updateMorphFunctions (- 2.25) newVoice
        = Inr (newVoice \<lparr> wave_a := - 3, wave_b := 0, wavePosition := 0.75 \<rparr>)"
proof -
  have "\<lfloor>- 2.25 :: real\<rfloor> = - 3" by (simp add: floor_eq_iff)
  then show ?thesis
    using updateMorphFunctions_floor_and_fraction [of "- 2.25" newVoice]
    by (simp add: clamp_def)
qed

text \<open>
  The claim as stated, for every real position, fails at \<open>2^31\<close>: \<open>wave_a\<close> is an
  \<^verbatim>\<open>int\<close>, and no \<^verbatim>\<open>int\<close> is the floor of that position.
\<close>

theorem updateMorphFunctions_cast_counterexample:
  "updateMorphFunctions (2 ^ 31) newVoice = Inl CastOutOfRange"
  by (simp add: updateMorphFunctions_def Let_def INT_MIN_def INT_MAX_def)

lemma fields_withFields [simp]: "fields (withFields st v) = v"
  by (cases st) simp_all

lemma perform_keeps_morph:
  assumes "\<not> isMorph c" "perform c st = Inr st'"
  shows "wave_a (fields st') = wave_a (fields st) \<and> wave_b (fields st') = wave_b (fields st)
         \<and> wavePosition (fields st') = wavePosition (fields st)"
proof (cases c)
  case (StartNote n vel wheel sr)
  with assms show ?thesis
    by (auto simp add: startNote_def Let_def split: if_splits sum.splits)
next
  case (StopNote vel tail)
  with assms show ?thesis by (cases st) (auto simp add: stopNote_def)
next
  case (UpdateMorphFunctions p)
  with assms show ?thesis by simp
next
  case render: (RenderNextBlock buf s n)
  show ?thesis
  proof (cases st)
    case (Finite v)
    with render assms obtain buf' where r: "renderNextBlock v buf s n = Inr (fields st', buf')"
      by (auto split: sum.splits prod.splits)
    show ?thesis
    proof (cases "approximatelyEqual (phaseIncrement v) 0")
      case True
      with r Finite show ?thesis by (simp add: renderNextBlock_def)
    next
      case False
      with r have "sampleLoop v buf s n = Inr (fields st', buf')" by (simp add: renderNextBlock_def)
      then have "fields st' = v \<lparr> phaseIndex := phaseIndex v + real_of_int (max 0 n) * phaseIncrement v \<rparr>"
        by (rule sampleLoop_voice)
      then show ?thesis using Finite by simp
    qed
  next
    case (InfiniteIncrement v)
    with render assms show ?thesis by (auto split: sum.splits prod.splits)
  next
    case (StoppedAfterInfinite v)
    with render assms show ?thesis by auto
  qed
qed

lemma history_keeps_morph:
  assumes "\<forall>c\<in>set cs. \<not> isMorph c" "history cs st = Inr st'"
  shows "wave_a (fields st') = wave_a (fields st) \<and> wave_b (fields st') = wave_b (fields st)
         \<and> wavePosition (fields st') = wavePosition (fields st)"
  using assms
proof (induction cs arbitrary: st)
  case Nil
  then show ?case by simp
next
  case (Cons c cs)
  from Cons.prems(2) obtain st1 where c: "perform c st = Inr st1" and rest: "history cs st1 = Inr st'"
    by (auto split: sum.splits)
  from Cons.prems(1) have "\<not> isMorph c" and "\<forall>c\<in>set cs. \<not> isMorph c" by simp_all
  then show ?case
    using perform_keeps_morph [OF _ c] Cons.IH [OF _ rest] by simp
qed

lemma history_last_morph:
  assumes "history cs st = Inr st'" "\<exists>c\<in>set cs. isMorph c"
  shows "\<exists>p. UpdateMorphFunctions p \<in> set cs
            \<and> wave_a (fields st') = \<lfloor>p\<rfloor> \<and> wave_b (fields st') = clamp (\<lfloor>p\<rfloor> + 1) 0 3
            \<and> wavePosition (fields st') = p - of_int \<lfloor>p\<rfloor>"
  using assms
proof (induction cs arbitrary: st)
  case Nil
  then show ?case by simp
next
  case (Cons c cs)
  from Cons.prems(1) obtain st1 where c: "perform c st = Inr st1" and rest: "history cs st1 = Inr st'"
    by (auto split: sum.splits)
  show ?case
  proof (cases "\<exists>d\<in>set cs. isMorph d")
    case True
    from Cons.IH [OF rest True] show ?thesis by auto
  next
    case False
    with Cons.prems(2) have m: "isMorph c" by simp
    then obtain p where p: "c = UpdateMorphFunctions p" by (cases c) simp_all
    with c obtain v1 where u: "updateMorphFunctions p (fields st) = Inr v1" and st1: "fields st1 = v1"
      by (auto split: sum.splits)
    from u have v1: "v1 = (fields st) \<lparr> wave_a := \<lfloor>p\<rfloor>, wave_b := clamp (\<lfloor>p\<rfloor> + 1) 0 3,
                   wavePosition := p - of_int \<lfloor>p\<rfloor> \<rparr>"
      by (rule updateMorphFunctions_result)
    from False have "\<forall>c\<in>set cs. \<not> isMorph c" by simp
    from history_keeps_morph [OF this rest] v1 st1 p show ?thesis by auto
  qed
qed

lemma clamp_bounds: "0 \<le> clamp x 0 3 \<and> clamp x 0 3 \<le> 3"
  by (simp add: clamp_def)

text \<open>
  C4, as amended: after every history of calls on a new voice in which no call is
  undefined behaviour (\<open>startNote\<close> at any sample rate, zero included, \<open>stopNote\<close>,
  \<open>updateMorphFunctions\<close> with any argument whose floor and its successor an \<^verbatim>\<open>int\<close>
  holds, render),
  \<open>wavePosition\<close> lies between 0 and 1 and \<open>wave_b\<close> is one of 0, 1, 2, 3; once
  \<open>updateMorphFunctions\<close> has been called, \<open>wave_b = clamp (wave_a + 1, 0, 3)\<close>; and \<open>wave_a\<close>
  is one of 0, 1, 2, 3 provided every position passed so far was at least 0 and below 4.
\<close>

theorem morph_state_invariant:
  assumes "history cs (Finite newVoice) = Inr st"
  shows "0 \<le> wavePosition (fields st) \<and> wavePosition (fields st) \<le> 1
         \<and> 0 \<le> wave_b (fields st) \<and> wave_b (fields st) \<le> 3
         \<and> ((\<exists>p. UpdateMorphFunctions p \<in> set cs)
              \<longrightarrow> wave_b (fields st) = clamp (wave_a (fields st) + 1) 0 3)
         \<and> ((\<forall>p. UpdateMorphFunctions p \<in> set cs \<longrightarrow> 0 \<le> p \<and> p < 4)
              \<longrightarrow> 0 \<le> wave_a (fields st) \<and> wave_a (fields st) \<le> 3)"
proof (cases "\<exists>c\<in>set cs. isMorph c")
  case False
  then have none: "\<forall>c\<in>set cs. \<not> isMorph c" by simp
  have "\<And>p. UpdateMorphFunctions p \<notin> set cs"
    using none by (metis isMorph.simps(1))
  moreover have "wave_a (fields st) = 0 \<and> wave_b (fields st) = 0 \<and> wavePosition (fields st) = 0"
    using history_keeps_morph [OF none assms] by (simp add: newVoice_def)
  ultimately show ?thesis by simp
next
  case True
  from history_last_morph [OF assms True] obtain p where
    p: "UpdateMorphFunctions p \<in> set cs" "wave_a (fields st) = \<lfloor>p\<rfloor>"
       "wave_b (fields st) = clamp (\<lfloor>p\<rfloor> + 1) 0 3"
       "wavePosition (fields st) = p - of_int \<lfloor>p\<rfloor>"
    by blast
  have frac: "0 \<le> p - of_int \<lfloor>p\<rfloor> \<and> p - of_int \<lfloor>p\<rfloor> \<le> 1" by linarith
  have "0 \<le> \<lfloor>p\<rfloor> \<and> \<lfloor>p\<rfloor> \<le> 3" if "\<forall>q. UpdateMorphFunctions q \<in> set cs \<longrightarrow> 0 \<le> q \<and> q < 4"
  proof -
    from that p(1) have "0 \<le> p" "p < 4" by auto
    then show ?thesis by (simp add: floor_less_iff le_floor_iff)
  qed
  with p frac clamp_bounds [of "\<lfloor>p\<rfloor> + 1"] show ?thesis by simp
qed

theorem morph_state_invariant_witness:
  "history [UpdateMorphFunctions 1.5, StartNote 69 1 0 0, RenderNextBlock [[0]] 0 1,
            StopNote 0 False, RenderNextBlock [[0]] 0 1] (Finite newVoice)
     = Inr (StoppedAfterInfinite (newVoice \<lparr> wave_a := 1, wave_b := 2, wavePosition := 0.5 \<rparr>))
   \<and> wavePosition (newVoice \<lparr> wave_a := 1, wave_b := 2, wavePosition := 0.5 \<rparr>) \<le> 1
   \<and> wave_b (newVoice \<lparr> wave_a := 1, wave_b := 2, wavePosition := 0.5 \<rparr>)
       = clamp (wave_a (newVoice \<lparr> wave_a := 1, wave_b := 2, wavePosition := 0.5 \<rparr>) + 1) 0 3
   \<and> wave_a (newVoice \<lparr> wave_a := 1, wave_b := 2, wavePosition := 0.5 \<rparr>) \<le> 3"
proof -
  let ?cs = "[UpdateMorphFunctions 1.5, StartNote 69 1 0 0, RenderNextBlock [[0]] 0 1,
            StopNote 0 False, RenderNextBlock [[0]] 0 1]"
  let ?w = "newVoice \<lparr> wave_a := 1, wave_b := 2, wavePosition := 0.5 \<rparr>"
  have f: "\<lfloor>1.5 :: real\<rfloor> = 1" by (simp add: floor_eq_iff)
  have morph: "updateMorphFunctions 1.5 newVoice = Inr ?w"
    by (simp add: updateMorphFunctions_def Let_def INT_MIN_def INT_MAX_def clamp_def f)
  have start: "startNote 69 1 0 0 ?w = Inl NotFinite"
    by (simp add: startNote_def Let_def)
  have loop: "sampleLoop ?w [[0]] 0 1
                = Inr (?w \<lparr> phaseIndex := phaseIndex ?w + real 1 * phaseIncrement ?w \<rparr>,
                       mixedInto ?w [[0]] 0 (int 1))"
    using sampleLoop_run [of 0 1 "[[0]]" ?w] by (simp add: INT_MAX_def)
  have run: "history ?cs (Finite newVoice) = Inr (StoppedAfterInfinite ?w)"
    using morph start loop by (simp add: stopNote_def newVoice_def)
  have some: "\<exists>p. UpdateMorphFunctions p \<in> set ?cs"
    by (rule exI [of _ "1.5"]) simp
  have within: "\<forall>p. UpdateMorphFunctions p \<in> set ?cs \<longrightarrow> 0 \<le> p \<and> p < 4"
    by simp
  have "fields (StoppedAfterInfinite ?w) = ?w" by simp
  then show ?thesis
    using morph_state_invariant [OF run] run some within by metis
qed

text \<open>
  The claim as stated fails twice. After \<open>updateMorphFunctions (- 1)\<close> the low index
  \<open>wave_a\<close> is -1, outside 0 to 3. And in the new voice, before any morph call, \<open>wave_b\<close>
  is 0 while \<open>clamp (wave_a + 1, 0, 3)\<close> is 1.
\<close>

theorem morph_index_counterexample:
  "history [UpdateMorphFunctions (- 1)] (Finite newVoice)
     = Inr (Finite (newVoice \<lparr> wave_a := - 1, wave_b := 0, wavePosition := 0 \<rparr>))
   \<and> wave_b newVoice = 0 \<and> clamp (wave_a newVoice + 1) 0 3 = 1"
  by (simp add: updateMorphFunctions_def Let_def INT_MIN_def INT_MAX_def clamp_def newVoice_def
        floor_minus_one_real)

end
